theory Spec2Isabelle
  imports Complex_Main "HOL-Library.List_Lexorder"
begin

section \<open>Search result documents\<close>

text \<open>
  A search result document is whatever \<^verbatim>\<open>json.loads\<close> hands to the parser: a nested
  structure of dicts (string keys, entries kept in their stored order), lists and
  scalars. A dict is an association list in the order of \<^verbatim>\<open>items()\<close>; a number is
  an unbounded integer or a finite float (a rational stands for the float's value).
\<close>

datatype json =
    JNull
  | JBool bool
  | JNum int
  | JFloat rat
  | JStr string
  | JList "json list"
  | JDict "(string \<times> json) list"

section \<open>The Deep-Key Extractor\<close>

text \<open>
  \<^verbatim>\<open>_gen_dict_extract(key, var)\<close>: the generator is the list of the values it
  yields, in the order it yields them. \<open>extract_items\<close> is the loop over
  \<^verbatim>\<open>var.items()\<close>, \<open>extract_value\<close> the \<^verbatim>\<open>isinstance\<close> branches on one value,
  \<open>extract_elems\<close> the loop \<^verbatim>\<open>for d in v\<close>.
\<close>

fun gen_dict_extract :: "string \<Rightarrow> json \<Rightarrow> json list"
  and extract_items :: "string \<Rightarrow> (string \<times> json) list \<Rightarrow> json list"
  and extract_value :: "string \<Rightarrow> json \<Rightarrow> json list"
  and extract_elems :: "string \<Rightarrow> json list \<Rightarrow> json list"
where
  "gen_dict_extract key (JDict kvs) = extract_items key kvs"
| "gen_dict_extract key JNull = []"
| "gen_dict_extract key (JBool b) = []"
| "gen_dict_extract key (JNum n) = []"
| "gen_dict_extract key (JFloat r) = []"
| "gen_dict_extract key (JStr s) = []"
| "gen_dict_extract key (JList ds) = []"
| "extract_items key [] = []"
| "extract_items key ((k, v) # kvs) =
     (if k = key then [v] else []) @ extract_value key v @ extract_items key kvs"
| "extract_value key (JDict kvs) = gen_dict_extract key (JDict kvs)"
| "extract_value key (JList ds) = extract_elems key ds"
| "extract_value key JNull = []"
| "extract_value key (JBool b) = []"
| "extract_value key (JNum n) = []"
| "extract_value key (JFloat r) = []"
| "extract_value key (JStr s) = []"
| "extract_elems key [] = []"
| "extract_elems key (d # ds) = gen_dict_extract key d @ extract_elems key ds"

text \<open>
  Every key of the document, at any depth and inside any container (also inside a
  list nested in a list): the keys a target key can be compared with.
\<close>

fun all_keys :: "json \<Rightarrow> string list"
  and all_keys_items :: "(string \<times> json) list \<Rightarrow> string list"
  and all_keys_elems :: "json list \<Rightarrow> string list"
where
  "all_keys (JDict kvs) = all_keys_items kvs"
| "all_keys (JList ds) = all_keys_elems ds"
| "all_keys JNull = []"
| "all_keys (JBool b) = []"
| "all_keys (JNum n) = []"
| "all_keys (JFloat r) = []"
| "all_keys (JStr s) = []"
| "all_keys_items [] = []"
| "all_keys_items ((k, v) # kvs) = k # all_keys v @ all_keys_items kvs"
| "all_keys_elems [] = []"
| "all_keys_elems (d # ds) = all_keys d @ all_keys_elems ds"

section \<open>Exceptions and subscripting\<close>

text \<open>
  The exceptions the parser's expressions can raise. A \<^verbatim>\<open>KeyError\<close> carries the key
  that was missing: a string key, or the 0 of \<^verbatim>\<open>d[0]\<close> applied to a dict.
\<close>

datatype pykey = KStr string | KZero

datatype error = KeyError pykey | IndexError | TypeError | ValueError

definition bind_err :: "error + 'a \<Rightarrow> ('a \<Rightarrow> error + 'b) \<Rightarrow> error + 'b" where
  "bind_err m f = (case m of Inl e \<Rightarrow> Inl e | Inr x \<Rightarrow> f x)"

text \<open>
  \<^verbatim>\<open>x["k"]\<close>: a dict looks the key up; a list or a string takes integer indices only,
  and the other scalars are not subscriptable (both \<^verbatim>\<open>TypeError\<close>).
\<close>

fun subscript_key :: "json \<Rightarrow> string \<Rightarrow> error + json" where
  "subscript_key (JDict kvs) k =
     (case map_of kvs k of None \<Rightarrow> Inl (KeyError (KStr k)) | Some v \<Rightarrow> Inr v)"
| "subscript_key _ k = Inl TypeError"

text \<open>
  \<^verbatim>\<open>x[0]\<close>: the first element of a list or the first character of a string
  (\<^verbatim>\<open>IndexError\<close> when empty); a dict has string keys only, so the key 0 is missing.
\<close>

fun subscript_zero :: "json \<Rightarrow> error + json" where
  "subscript_zero (JList []) = Inl IndexError"
| "subscript_zero (JList (d # ds)) = Inr d"
| "subscript_zero (JStr []) = Inl IndexError"
| "subscript_zero (JStr (c # cs)) = Inr (JStr [c])"
| "subscript_zero (JDict kvs) = Inl (KeyError KZero)"
| "subscript_zero _ = Inl TypeError"

datatype step = Key string | Zero

fun subscript :: "json \<Rightarrow> step \<Rightarrow> error + json" where
  "subscript x (Key k) = subscript_key x k"
| "subscript x Zero = subscript_zero x"

text \<open>A chain of subscripts, left to right; the first failure is raised.\<close>

fun follow :: "json \<Rightarrow> step list \<Rightarrow> error + json" where
  "follow x [] = Inr x"
| "follow x (s # ss) = bind_err (subscript x s) (\<lambda>y. follow y ss)"

section \<open>Video records\<close>

text \<open>
  The dataclass \<^verbatim>\<open>Video\<close>. Every field is annotated \<^verbatim>\<open>str\<close> and nothing enforces it:
  the parser stores whatever value sits at the end of a path. The type of the
  fields is therefore a parameter: \<open>string\<close> for records as declared, \<open>json\<close>
  for records as the parser builds them.
\<close>

record 'a video =
  video_id :: 'a
  video_url :: 'a
  thumbnail_url :: 'a
  title :: 'a
  length' :: 'a
  channel :: 'a
  channel_url :: 'a
  channel_thumbnail_url :: 'a
  uploaded_on :: 'a
  view_count_text :: 'a

section \<open>The results parser\<close>

text \<open>
  The state of a \<^verbatim>\<open>SearchResultsJSONParser\<close>: \<^verbatim>\<open>_json\<close> (Python's \<^verbatim>\<open>None\<close> is
  \<open>JNull\<close>), \<^verbatim>\<open>_videos\<close>, and the arguments of the \<^verbatim>\<open>print\<close> calls made so far.
\<close>

record parser =
  results_json :: json
  videos :: "json video list"
  printed :: "string list"

text \<open>
  An f-string field \<^verbatim>\<open>{v}\<close> is \<^verbatim>\<open>str(v)\<close>: the string itself for a string. How
  Python prints the other values is a parameter \<open>str_of\<close> of the model.
\<close>

fun format_value :: "(json \<Rightarrow> string) \<Rightarrow> json \<Rightarrow> string" where
  "format_value str_of (JStr s) = s"
| "format_value str_of v = str_of v"

text \<open>
  \<^verbatim>\<open>str(e)\<close> of a \<^verbatim>\<open>KeyError\<close> is the \<^verbatim>\<open>repr\<close> of the key; the keys the parser
  looks up contain no quote and no escape.
\<close>

fun key_repr :: "pykey \<Rightarrow> string" where
  "key_repr (KStr k) = [CHR 0x27] @ k @ [CHR 0x27]"
| "key_repr KZero = ''0''"

text \<open>
  The call \<^verbatim>\<open>Video(...)\<close> of \<^verbatim>\<open>parse_video_results\<close>: the arguments are evaluated
  in order and the first failing subscript raises.
\<close>

definition build_video :: "(json \<Rightarrow> string) \<Rightarrow> json \<Rightarrow> json \<Rightarrow> error + json video" where
  "build_video str_of vid video =
     bind_err (follow video [Key ''thumbnail'', Key ''thumbnails'', Zero, Key ''url'']) (\<lambda>a3.
     bind_err (follow video [Key ''title'', Key ''runs'', Zero, Key ''text'']) (\<lambda>a4.
     bind_err (follow video [Key ''lengthText'', Key ''runs'', Zero, Key ''text'']) (\<lambda>a5.
     bind_err (follow video [Key ''longBylineText'', Key ''runs'', Zero, Key ''text'']) (\<lambda>a6.
     bind_err (follow video [Key ''longBylineText'', Key ''runs'', Zero,
        Key ''navigationEndpoint'', Key ''commandMetadata'', Key ''webCommandMetadata'',
        Key ''url'']) (\<lambda>a7.
     bind_err (follow video [Key ''channelThumbnail'', Key ''thumbnails'', Zero, Key ''url'']) (\<lambda>a8.
     bind_err (follow video [Key ''publishedTimeText'', Key ''runs'', Zero, Key ''text'']) (\<lambda>a9.
     bind_err (follow video [Key ''viewCountText'', Key ''runs'', Zero, Key ''text'']) (\<lambda>a10.
     Inr \<lparr> video_id = vid,
           video_url = JStr (''https://www.youtube.com/watch?v='' @ format_value str_of vid),
           thumbnail_url = a3, title = a4, length' = a5, channel = a6, channel_url = a7,
           channel_thumbnail_url = a8, uploaded_on = a9, view_count_text = a10 \<rparr>))))))))"

text \<open>
  The loop \<^verbatim>\<open>for video in video_data\<close>. \<^verbatim>\<open>video["videoId"]\<close> stands before the
  \<^verbatim>\<open>try\<close>; the handler catches \<^verbatim>\<open>KeyError\<close> only. The result is the exception
  that escaped, if any, and the parser as the loop left it.
\<close>

fun parse_entries :: "(json \<Rightarrow> string) \<Rightarrow> json list \<Rightarrow> parser \<Rightarrow> error option \<times> parser" where
  "parse_entries str_of [] p = (None, p)"
| "parse_entries str_of (video # rest) p =
     (case subscript_key video ''videoId'' of
        Inl e \<Rightarrow> (Some e, p)
      | Inr vid \<Rightarrow>
          (case build_video str_of vid video of
             Inr v \<Rightarrow> parse_entries str_of rest (p\<lparr>videos := videos p @ [v]\<rparr>)
           | Inl (KeyError k) \<Rightarrow>
               parse_entries str_of rest
                 (p\<lparr>printed := printed p @
                    [''KeyError for video with ID '' @ format_value str_of vid @ ''.'',
                     key_repr k]\<rparr>)
           | Inl e \<Rightarrow> (Some e, p)))"

definition parse_video_results :: "(json \<Rightarrow> string) \<Rightarrow> parser \<Rightarrow> json \<Rightarrow> error option \<times> parser" where
  "parse_video_results str_of p doc =
     parse_entries str_of (gen_dict_extract ''compactVideoRenderer'' doc)
       (p\<lparr>results_json := doc\<rparr>)"

text \<open>\<^verbatim>\<open>__init__\<close> called without a document.\<close>

definition new_parser :: parser where
  "new_parser = \<lparr> results_json = JNull, videos = [], printed = [] \<rparr>"

definition get_video_results :: "parser \<Rightarrow> json video list" where
  "get_video_results p = videos p"

text \<open>
  \<^verbatim>\<open>get_next_continuation_data\<close>: \<^verbatim>\<open>next(it)\<close> takes the first value the
  extractor yields (\<^verbatim>\<open>StopIteration\<close> when there is none; its \<^verbatim>\<open>str\<close> is empty);
  the two subscripts are evaluated in order. \<^verbatim>\<open>StopIteration\<close> and \<^verbatim>\<open>KeyError\<close>
  are caught and give \<^verbatim>\<open>None\<close>; any other exception escapes.
\<close>

definition get_next_continuation_data :: "parser \<Rightarrow> (error + (json \<times> json) option) \<times> parser" where
  "get_next_continuation_data p =
     (case gen_dict_extract ''nextContinuationData'' (results_json p) of
        [] \<Rightarrow>
          (Inr None,
           p\<lparr>printed := printed p @ [''Error: Could not get continuation data.'', []]\<rparr>)
      | continuation_data # _ \<Rightarrow>
          (case bind_err (subscript_key continuation_data ''continuation'') (\<lambda>c.
                bind_err (subscript_key continuation_data ''clickTrackingParams'') (\<lambda>t.
                Inr (c, t))) of
             Inr ct \<Rightarrow> (Inr (Some ct), p)
           | Inl (KeyError k) \<Rightarrow>
               (Inr None,
                p\<lparr>printed := printed p @
                   [''Error: Could not get continuation data.'', key_repr k]\<rparr>)
           | Inl e \<Rightarrow> (Inl e, p)))"

subsection \<open>The built-in \<^verbatim>\<open>int\<close>\<close>











section \<open>The record store\<close>

text \<open>
  The dict \<^verbatim>\<open>_videos\<close> of a \<^verbatim>\<open>VideoDataManager\<close>, as its entries in insertion
  order (the order of \<^verbatim>\<open>values()\<close>). An operation returns the arguments of its
  \<^verbatim>\<open>print\<close> calls and the new dict.
\<close>

type_synonym video_data_manager = "(string \<times> string video) list"

definition new_manager :: video_data_manager where
  "new_manager = []"

definition add_video_data_object ::
  "video_data_manager \<Rightarrow> string video \<Rightarrow> string list \<times> video_data_manager" where
  "add_video_data_object m video =
     (let vid = video_id video
      in if vid \<in> set (map fst m)
         then ([''Video '' @ [CHR 0x27] @ vid @ [CHR 0x27] @ '' already in dict, not adding.''], m)
         else ([], m @ [(vid, video)]))"

fun add_videos :: "video_data_manager \<Rightarrow> string video list \<Rightarrow> string list \<times> video_data_manager" where
  "add_videos m [] = ([], m)"
| "add_videos m (video # rest) =
     (case add_video_data_object m video of
        (out1, m1) \<Rightarrow> (case add_videos m1 rest of (out2, m2) \<Rightarrow> (out1 @ out2, m2)))"

definition get_videos :: "video_data_manager \<Rightarrow> string video list" where
  "get_videos m = map snd m"

section \<open>The report renderer\<close>

definition nl :: string where
  "nl = [CHR 0x0A]"

text \<open>Python's decimal rendering of the index.\<close>

fun str_nat :: "nat \<Rightarrow> string" where
  "str_nat n =
     (if n < 10 then [char_of (48 + n)]
      else str_nat (n div 10) @ [char_of (48 + n mod 10)])"

text \<open>\<^verbatim>\<open>Video.__str__\<close>: the closing quotes stand on a line of their own, so the text ends with a newline.\<close>

definition video_str :: "string video \<Rightarrow> string" where
  "video_str v =
     ''['' @ video_id v @ ''] '' @ title v @ '' ('' @ length' v @ '') - '' @ view_count_text v @ nl @
     ''by: '' @ channel v @ '' - uploaded '' @ uploaded_on v @ '' - '' @ video_url v @ nl"

fun print_loop :: "nat \<Rightarrow> string video list \<Rightarrow> string list" where
  "print_loop index [] = []"
| "print_loop index (video # rest) =
     (str_nat index @ ''. '' @ video_str video) # print_loop (index + 1) rest"

text \<open>\<^verbatim>\<open>print_videos\<close>: the argument of each \<^verbatim>\<open>print\<close> call, in order.\<close>

definition print_videos :: "video_data_manager \<Rightarrow> string list" where
  "print_videos m = print_loop 1 (get_videos m)"

fun join :: "string \<Rightarrow> string list \<Rightarrow> string" where
  "join sep [] = []"
| "join sep [x] = x"
| "join sep (x # y # xs) = x @ sep @ join sep (y # xs)"

definition markdown_entry :: "string video \<Rightarrow> string list" where
  "markdown_entry v =
     [''![thumbnail preview]('' @ thumbnail_url v @ '')'' @ nl,
      ''[['' @ video_id v @ ''] '' @ title v @ '']('' @ video_url v @ '') ('' @ length' v @
        '') - '' @ view_count_text v @ ''  '',
      ''![channel thumbnail preview]('' @ channel_thumbnail_url v @ '') '' @ channel v @
        '' - uploaded '' @ uploaded_on v @ nl @ nl @ ''- - -'' @ nl]"

fun markdown_loop :: "string list \<Rightarrow> string video list \<Rightarrow> string list" where
  "markdown_loop markdown_contents [] = markdown_contents"
| "markdown_loop markdown_contents (video # rest) =
     markdown_loop (markdown_contents @ markdown_entry video) rest"

text \<open>\<^verbatim>\<open>write_videos_to_markdown_file\<close>: the text written to the file.\<close>

definition write_videos_to_markdown_file :: "video_data_manager \<Rightarrow> string" where
  "write_videos_to_markdown_file m =
     join nl (markdown_loop [''# Search Results Summary'' @ nl @ nl] (get_videos m))"

text \<open>
  Position \<open>i\<close> of a batch handed to \<^verbatim>\<open>add_videos\<close> holds a first-seen identifier:
  the store does not have it yet and no earlier record of the batch carries it.
\<close>

definition first_seen :: "video_data_manager \<Rightarrow> string video list \<Rightarrow> nat \<Rightarrow> bool" where
  "first_seen m vs i =
     (video_id (vs ! i) \<notin> set (map fst m) \<and> (\<forall>j<i. video_id (vs ! j) \<noteq> video_id (vs ! i)))"

text \<open>A record with the given identifier and title, for the examples.\<close>

definition sample_video :: "string \<Rightarrow> string \<Rightarrow> string video" where
  "sample_video vid t =
     \<lparr> video_id = vid, video_url = ''https://www.youtube.com/watch?v='' @ vid,
       thumbnail_url = ''t.jpg'', title = t, length' = ''3:33'', channel = ''Chan'',
       channel_url = ''/c/chan'', channel_thumbnail_url = ''c.jpg'',
       uploaded_on = ''1 day ago'', view_count_text = ''10 views'' \<rparr>"

text \<open>
  A video-entry node with every path the parser follows, for the examples:
  \<open>sample_fields\<close> is the node without its \<^verbatim>\<open>videoId\<close>.
\<close>

definition sample_runs :: "string \<Rightarrow> json" where
  "sample_runs t = JDict [(''runs'', JList [JDict [(''text'', JStr t)]])]"

definition sample_thumbnails :: "string \<Rightarrow> json" where
  "sample_thumbnails u = JDict [(''thumbnails'', JList [JDict [(''url'', JStr u)]])]"

definition sample_fields :: "(string \<times> json) list" where
  "sample_fields =
     [(''thumbnail'', sample_thumbnails ''t.jpg''),
      (''title'', sample_runs ''Title''),
      (''lengthText'', sample_runs ''3:33''),
      (''longBylineText'', JDict [(''runs'', JList [JDict
          [(''text'', JStr ''Chan''),
           (''navigationEndpoint'', JDict [(''commandMetadata'', JDict
              [(''webCommandMetadata'', JDict [(''url'', JStr ''/c/chan'')])])])]])]),
      (''channelThumbnail'', sample_thumbnails ''c.jpg''),
      (''publishedTimeText'', sample_runs ''1 day ago''),
      (''viewCountText'', sample_runs ''10 views'')]"

definition sample_node :: "string \<Rightarrow> json" where
  "sample_node vid = JDict ((''videoId'', JStr vid) # sample_fields)"

text \<open>The record \<^verbatim>\<open>parse_video_results\<close> builds from \<open>sample_node vid\<close>.\<close>

definition sample_record :: "string \<Rightarrow> json video" where
  "sample_record vid =
     \<lparr> video_id = JStr vid, video_url = JStr (''https://www.youtube.com/watch?v='' @ vid),
       thumbnail_url = JStr ''t.jpg'', title = JStr ''Title'', length' = JStr ''3:33'',
       channel = JStr ''Chan'', channel_url = JStr ''/c/chan'',
       channel_thumbnail_url = JStr ''c.jpg'', uploaded_on = JStr ''1 day ago'',
       view_count_text = JStr ''10 views'' \<rparr>"

text \<open>
  Positions, for stating what the extractor finds. A position is the list of indices
  on the way from the document down to one dict entry: in a dict the index of an
  entry, in a list that is a dict value the index of an element. \<open>stored_at key doc q\<close>
  is the value stored under \<open>key\<close> at position \<open>q\<close>, when \<open>q\<close> leads through dict
  values and through dict elements of lists that are dict values to an entry whose
  key is \<open>key\<close>.
\<close>

fun stored_at :: "string \<Rightarrow> json \<Rightarrow> nat list \<Rightarrow> json option" where
  "stored_at key (JDict m) [i] =
     (if i < length m \<and> fst (m ! i) = key then Some (snd (m ! i)) else None)"
| "stored_at key (JDict m) (i # j # q) =
     (if i < length m then
        (case snd (m ! i) of
           JDict m' \<Rightarrow> stored_at key (JDict m') (j # q)
         | JList ds \<Rightarrow> (if j < length ds then stored_at key (ds ! j) q else None)
         | _ \<Rightarrow> None)
      else None)"
| "stored_at key _ _ = None"

definition stored_in_list :: "string \<Rightarrow> json list \<Rightarrow> nat list \<Rightarrow> json option" where
  "stored_in_list key ds q =
     (case q of [] \<Rightarrow> None | j # r \<Rightarrow> if j < length ds then stored_at key (ds ! j) r else None)"

definition stored_in_value :: "string \<Rightarrow> json \<Rightarrow> nat list \<Rightarrow> json option" where
  "stored_in_value key v q =
     (case v of JDict m \<Rightarrow> stored_at key v q | JList ds \<Rightarrow> stored_in_list key ds q | _ \<Rightarrow> None)"

text \<open>
  The positions of all entries under \<open>key\<close>, listed depth first: an entry before what
  lies inside its value, the entries of a dict in stored order, the elements of a
  list in index order.
\<close>

definition bump :: "nat list \<Rightarrow> nat list" where
  "bump q = (case q of [] \<Rightarrow> [] | i # r \<Rightarrow> Suc i # r)"

fun positions :: "string \<Rightarrow> json \<Rightarrow> nat list list"
  and positions_items :: "string \<Rightarrow> (string \<times> json) list \<Rightarrow> nat list list"
  and positions_value :: "string \<Rightarrow> json \<Rightarrow> nat list list"
  and positions_elems :: "string \<Rightarrow> json list \<Rightarrow> nat list list"
where
  "positions key (JDict kvs) = positions_items key kvs"
| "positions key JNull = []"
| "positions key (JBool b) = []"
| "positions key (JNum n) = []"
| "positions key (JFloat r) = []"
| "positions key (JStr s) = []"
| "positions key (JList ds) = []"
| "positions_items key [] = []"
| "positions_items key ((k, v) # kvs) =
     (if k = key then [[0]] else []) @ map ((#) 0) (positions_value key v)
       @ map bump (positions_items key kvs)"
| "positions_value key (JDict kvs) = positions key (JDict kvs)"
| "positions_value key (JList ds) = positions_elems key ds"
| "positions_value key JNull = []"
| "positions_value key (JBool b) = []"
| "positions_value key (JNum n) = []"
| "positions_value key (JFloat r) = []"
| "positions_value key (JStr s) = []"
| "positions_elems key [] = []"
| "positions_elems key (d # ds) = map ((#) 0) (positions key d) @ map bump (positions_elems key ds)"

text \<open>
  What one video-entry node contributes to a parse, for stating what a parse
  appends. \<open>escapes\<close>: processing the node raises an exception that no handler
  catches (the \<^verbatim>\<open>videoId\<close> lookup fails, or a sub-field path fails with anything but
  a \<^verbatim>\<open>KeyError\<close>). \<open>node_record\<close>: the record built from the node, when its
  identifier and every sub-field path are there. \<open>extracted_records\<close>: the records
  of the nodes under \<^verbatim>\<open>compactVideoRenderer\<close>, in the extractor's order, up to the
  first node whose exception escapes; a node without a record is left out, and no
  node is left out for any other reason.
\<close>

definition escapes :: "(json \<Rightarrow> string) \<Rightarrow> json \<Rightarrow> bool" where
  "escapes str_of node =
     (case subscript_key node ''videoId'' of
        Inl e \<Rightarrow> True
      | Inr vid \<Rightarrow>
          (case build_video str_of vid node of
             Inr v \<Rightarrow> False
           | Inl (KeyError k) \<Rightarrow> False
           | Inl e \<Rightarrow> True))"

definition node_record :: "(json \<Rightarrow> string) \<Rightarrow> json \<Rightarrow> json video option" where
  "node_record str_of node =
     (case subscript_key node ''videoId'' of
        Inl e \<Rightarrow> None
      | Inr vid \<Rightarrow> (case build_video str_of vid node of Inr v \<Rightarrow> Some v | Inl e \<Rightarrow> None))"

definition extracted_records :: "(json \<Rightarrow> string) \<Rightarrow> json \<Rightarrow> json video list" where
  "extracted_records str_of doc =
     List.map_filter (node_record str_of)
       (takeWhile (\<lambda>node. \<not> escapes str_of node)
          (gen_dict_extract ''compactVideoRenderer'' doc))"

section \<open>Properties of the Deep-Key Extractor\<close>

lemma extract_absent_all:
  "key \<notin> set (all_keys d) \<longrightarrow> gen_dict_extract key d = []"
  "key \<notin> set (all_keys_items kvs) \<longrightarrow> extract_items key kvs = []"
  "key \<notin> set (all_keys v) \<longrightarrow> extract_value key v = []"
  "key \<notin> set (all_keys_elems ds) \<longrightarrow> extract_elems key ds = []"
  by (induction key d and key kvs and key v and key ds
      rule: gen_dict_extract_extract_items_extract_value_extract_elems.induct) auto


lemma extract_items_append:
  "extract_items key (xs @ ys) = extract_items key xs @ extract_items key ys"
  by (induction xs) auto

text \<open>
  C4. When the target key occurs nowhere in the document, the extractor yields the
  empty sequence. The document is any decoded JSON value, scalars of every kind
  mixed with dicts and lists; the extractor is a total function into lists, so
  no shape of input makes it raise.
\<close>

theorem extractor_absent_key_empty:
  "key \<notin> set (all_keys doc) \<Longrightarrow> gen_dict_extract key doc = []"
  using extract_absent_all(1) by blast

theorem extractor_absent_key_empty_witness:
  "''videoId'' \<notin> set (all_keys
      (JDict [(''a'', JNum 1), (''b'', JStr ''videoId''), (''c'', JBool True), (''d'', JNull),
              (''e'', JFloat (1 / 2)),
              (''f'', JList [JNum 2, JStr ''x'', JDict [(''g'', JList [JList [JNull]])]])]))
   \<and> gen_dict_extract ''videoId''
      (JDict [(''a'', JNum 1), (''b'', JStr ''videoId''), (''c'', JBool True), (''d'', JNull),
              (''e'', JFloat (1 / 2)),
              (''f'', JList [JNum 2, JStr ''x'', JDict [(''g'', JList [JList [JNull]])]])]) = []"
  using extractor_absent_key_empty [of "''videoId''"
      "JDict [(''a'', JNum 1), (''b'', JStr ''videoId''), (''c'', JBool True), (''d'', JNull),
              (''e'', JFloat (1 / 2)),
              (''f'', JList [JNum 2, JStr ''x'', JDict [(''g'', JList [JList [JNull]])]])]"]
  by simp



section \<open>Properties of the record store\<close>

lemma add_object_keys:
  "set (map fst (snd (add_video_data_object m v))) = insert (video_id v) (set (map fst m))"
  by (auto simp: add_video_data_object_def Let_def)

lemma add_videos_Cons_snd:
  "snd (add_videos m (v # vs)) = snd (add_videos (snd (add_video_data_object m v)) vs)"
  by (simp split: prod.splits)

lemma add_videos_snoc:
  "snd (add_videos m (vs @ [v])) = snd (add_video_data_object (snd (add_videos m vs)) v)"
proof (induction vs arbitrary: m)
  case Nil
  show ?case by (simp split: prod.splits)
next
  case (Cons a vs)
  show ?case
    unfolding append_Cons add_videos_Cons_snd by (rule Cons.IH)
qed

lemma add_videos_keys:
  "set (map fst (snd (add_videos m vs))) = set (map fst m) \<union> video_id ` set vs"
proof (induction vs arbitrary: m)
  case Nil then show ?case by simp
next
  case (Cons v vs)
  show ?case
    unfolding add_videos_Cons_snd Cons.IH add_object_keys by auto
qed

text \<open>
  C6. Inserting a record twice leaves the store, and so the enumeration, as
  inserting it once does. When the identifier is already a key, the insert
  changes nothing (the stored record stays, whatever the other fields of the new
  one are) and all it does is print one message.
\<close>

theorem insert_idempotent:
  "snd (add_video_data_object (snd (add_video_data_object m v)) v) = snd (add_video_data_object m v)
   \<and> get_videos (snd (add_video_data_object (snd (add_video_data_object m v)) v)) =
       get_videos (snd (add_video_data_object m v))
   \<and> (video_id v \<in> set (map fst m) \<longrightarrow>
        add_video_data_object m v =
          ([''Video '' @ [CHR 0x27] @ video_id v @ [CHR 0x27] @ '' already in dict, not adding.''], m))"
  by (simp add: add_video_data_object_def Let_def)

theorem insert_idempotent_witness:
  "video_id (sample_video ''x'' ''other title'') \<in> set (map fst [(''x'', sample_video ''x'' ''A'')])
   \<and> get_videos (snd (add_video_data_object [(''x'', sample_video ''x'' ''A'')]
         (sample_video ''x'' ''other title''))) = [sample_video ''x'' ''A'']
   \<and> fst (add_video_data_object [(''x'', sample_video ''x'' ''A'')]
         (sample_video ''x'' ''other title'')) = [''Video '' @ [CHR 0x27] @ ''x'' @ [CHR 0x27] @ '' already in dict, not adding.'']"
  using insert_idempotent [of "[(''x'', sample_video ''x'' ''A'')]" "sample_video ''x'' ''other title''"]
  by (simp add: sample_video_def get_videos_def)

text \<open>
  C7. After \<^verbatim>\<open>add_videos\<close> the enumeration is what the store listed before,
  followed by the records of the batch that carry a first-seen identifier, in the
  order of the batch; every other record of the batch is dropped.
\<close>

theorem add_videos_first_seen_order:
  "get_videos (snd (add_videos m vs)) =
     get_videos m @ map ((!) vs) (filter (first_seen m vs) [0..<length vs])"
proof (induction vs rule: rev_induct)
  case Nil
  then show ?case by simp
next
  case (snoc v vs)
  have old: "filter (first_seen m (vs @ [v])) [0..<length vs] = filter (first_seen m vs) [0..<length vs]"
    by (rule filter_cong) (auto simp: first_seen_def nth_append)
  have mp: "map ((!) (vs @ [v])) (filter (first_seen m vs) [0..<length vs])
      = map ((!) vs) (filter (first_seen m vs) [0..<length vs])"
    by (rule map_cong) (auto simp: nth_append)
  have ids: "(\<forall>j<length vs. video_id (vs ! j) \<noteq> video_id v) \<longleftrightarrow> video_id v \<notin> video_id ` set vs"
    by (metis (no_types, lifting) image_iff in_set_conv_nth)
  have last: "first_seen m (vs @ [v]) (length vs) \<longleftrightarrow>
      video_id v \<notin> set (map fst (snd (add_videos m vs)))"
    unfolding add_videos_keys first_seen_def using ids
    by (simp add: nth_append)
  show ?case
    using snoc.IH old mp last
    by (simp add: add_videos_snoc add_video_data_object_def Let_def get_videos_def)
qed

theorem add_videos_first_seen_order_witness:
  "get_videos (snd (add_videos [(''x'', sample_video ''x'' ''A'')]
      [sample_video ''y'' ''B'', sample_video ''x'' ''A2'', sample_video ''z'' ''C'',
       sample_video ''y'' ''B2''])) =
     [sample_video ''x'' ''A'', sample_video ''y'' ''B'', sample_video ''z'' ''C'']"
  using add_videos_first_seen_order [of "[(''x'', sample_video ''x'' ''A'')]"
      "[sample_video ''y'' ''B'', sample_video ''x'' ''A2'', sample_video ''z'' ''C'',
        sample_video ''y'' ''B2'']"]
  by (simp add: first_seen_def sample_video_def get_videos_def add_video_data_object_def
      All_less_Suc upt_rec numeral_nat)

section \<open>Properties of the results parser\<close>














text \<open>
  C2, as the claim states it, fails: an exception can escape. Here the first
  value under \<^verbatim>\<open>nextContinuationData\<close> is a string, the subscript
  \<^verbatim>\<open>continuation_data['continuation']\<close> raises \<^verbatim>\<open>TypeError\<close>, and no handler
  catches it.
\<close>

theorem next_continuation_raises:
  "fst (get_next_continuation_data
      (new_parser\<lparr>results_json := JDict [(''nextContinuationData'', JStr ''abc'')]\<rparr>)) =
     Inl TypeError"
  by (simp add: get_next_continuation_data_def bind_err_def new_parser_def)

text \<open>
  C2, amended. Only the first value the extractor yields under
  \<^verbatim>\<open>nextContinuationData\<close> is used. When nothing is yielded (in particular when the
  key occurs nowhere in the document) the result is \<^verbatim>\<open>None\<close>. When the first value
  is a dict, the result is the pair of its \<^verbatim>\<open>continuation\<close> and
  \<^verbatim>\<open>clickTrackingParams\<close> values if it has both, and \<^verbatim>\<open>None\<close> if it lacks either;
  what follows the first value plays no part. When the first value is not a dict,
  a \<^verbatim>\<open>TypeError\<close> escapes.
\<close>

theorem next_continuation_first_match:
  "(gen_dict_extract ''nextContinuationData'' (results_json p) = [] \<longrightarrow>
      fst (get_next_continuation_data p) = Inr None)
   \<and> (''nextContinuationData'' \<notin> set (all_keys (results_json p)) \<longrightarrow>
      fst (get_next_continuation_data p) = Inr None)
   \<and> (\<forall>m rest c t. gen_dict_extract ''nextContinuationData'' (results_json p) = JDict m # rest
         \<and> map_of m ''continuation'' = Some c \<and> map_of m ''clickTrackingParams'' = Some t \<longrightarrow>
      fst (get_next_continuation_data p) = Inr (Some (c, t)))
   \<and> (\<forall>m rest. gen_dict_extract ''nextContinuationData'' (results_json p) = JDict m # rest
         \<and> (map_of m ''continuation'' = None \<or> map_of m ''clickTrackingParams'' = None) \<longrightarrow>
      fst (get_next_continuation_data p) = Inr None)
   \<and> (\<forall>x rest. gen_dict_extract ''nextContinuationData'' (results_json p) = x # rest
         \<and> (\<forall>m. x \<noteq> JDict m) \<longrightarrow>
      fst (get_next_continuation_data p) = Inl TypeError)"
proof -
  have a: "''nextContinuationData'' \<notin> set (all_keys (results_json p)) \<Longrightarrow>
      gen_dict_extract ''nextContinuationData'' (results_json p) = []"
    using extract_absent_all(1) by blast
  have e: "\<And>x. (\<forall>m. x \<noteq> JDict m) \<Longrightarrow> subscript_key x ''continuation'' = Inl TypeError"
    by (case_tac x) simp_all
  show ?thesis
    using a e
    by (auto simp: get_next_continuation_data_def bind_err_def split: option.splits)
qed

theorem next_continuation_first_match_witness:
  "gen_dict_extract ''nextContinuationData''
      (results_json (new_parser\<lparr>results_json := JDict [(''continuations'', JList
         [JDict [(''nextContinuationData'', JDict [(''continuation'', JStr ''tok'')])],
          JDict [(''nextContinuationData'', JDict [(''continuation'', JStr ''tok2''),
             (''clickTrackingParams'', JStr ''ctp2'')])]])]\<rparr>)) =
     [JDict [(''continuation'', JStr ''tok'')],
      JDict [(''continuation'', JStr ''tok2''), (''clickTrackingParams'', JStr ''ctp2'')]]
   \<and> map_of [(''continuation'', JStr ''tok'')] ''clickTrackingParams'' = None
   \<and> fst (get_next_continuation_data (new_parser\<lparr>results_json := JDict [(''continuations'', JList
         [JDict [(''nextContinuationData'', JDict [(''continuation'', JStr ''tok'')])],
          JDict [(''nextContinuationData'', JDict [(''continuation'', JStr ''tok2''),
             (''clickTrackingParams'', JStr ''ctp2'')])]])]\<rparr>)) = Inr None
   \<and> fst (get_next_continuation_data (new_parser\<lparr>results_json := JDict [(''a'', JDict
         [(''nextContinuationData'', JDict [(''continuation'', JStr ''tok''),
             (''clickTrackingParams'', JStr ''ctp'')])])]\<rparr>)) = Inr (Some (JStr ''tok'', JStr ''ctp''))"
  using next_continuation_first_match [of "new_parser\<lparr>results_json := JDict [(''continuations'', JList
         [JDict [(''nextContinuationData'', JDict [(''continuation'', JStr ''tok'')])],
          JDict [(''nextContinuationData'', JDict [(''continuation'', JStr ''tok2''),
             (''clickTrackingParams'', JStr ''ctp2'')])]])]\<rparr>"]
    next_continuation_first_match [of "new_parser\<lparr>results_json := JDict [(''a'', JDict
         [(''nextContinuationData'', JDict [(''continuation'', JStr ''tok''),
             (''clickTrackingParams'', JStr ''ctp'')])])]\<rparr>"]
  by (simp add: new_parser_def)

text \<open>
  C1. The code breaks the claim where the missing sub-field is the identifier:
  \<^verbatim>\<open>video["videoId"]\<close> stands before the \<^verbatim>\<open>try\<close>, so its \<^verbatim>\<open>KeyError\<close> escapes and
  ends the loop. The document holds a node without \<^verbatim>\<open>videoId\<close> followed by a
  complete node: the exception escapes and no record is built, where the claim asks
  for one record and no exception. A node that lacks another key (here \<^verbatim>\<open>title\<close>)
  is skipped as the claim says, and the complete node after it is recorded.
\<close>

theorem parse_missing_video_id_escapes:
  "parse_video_results (\<lambda>v. []) new_parser
      (JDict [(''contents'', JList
         [JDict [(''compactVideoRenderer'', JDict sample_fields)],
          JDict [(''compactVideoRenderer'', sample_node ''abc123'')]])]) =
     (Some (KeyError (KStr ''videoId'')),
      new_parser\<lparr>results_json := JDict [(''contents'', JList
         [JDict [(''compactVideoRenderer'', JDict sample_fields)],
          JDict [(''compactVideoRenderer'', sample_node ''abc123'')]])]\<rparr>)
   \<and> get_video_results (snd (parse_video_results (\<lambda>v. []) new_parser
      (JDict [(''contents'', JList
         [JDict [(''compactVideoRenderer'', JDict sample_fields)],
          JDict [(''compactVideoRenderer'', sample_node ''abc123'')]])]))) = []
   \<and> parse_video_results (\<lambda>v. []) new_parser
      (JDict [(''contents'', JList
         [JDict [(''compactVideoRenderer'',
             JDict ((''videoId'', JStr ''bad'') # filter (\<lambda>kv. fst kv \<noteq> ''title'') sample_fields))],
          JDict [(''compactVideoRenderer'', sample_node ''abc123'')]])]) =
     (None,
      \<lparr> results_json = JDict [(''contents'', JList
         [JDict [(''compactVideoRenderer'',
             JDict ((''videoId'', JStr ''bad'') # filter (\<lambda>kv. fst kv \<noteq> ''title'') sample_fields))],
          JDict [(''compactVideoRenderer'', sample_node ''abc123'')]])],
        videos = [sample_record ''abc123''],
        printed = [''KeyError for video with ID bad.'', [CHR 0x27] @ ''title'' @ [CHR 0x27]] \<rparr>)"
  by (simp add: parse_video_results_def new_parser_def get_video_results_def sample_node_def
      build_video_def sample_fields_def sample_runs_def sample_thumbnails_def
      sample_record_def bind_err_def)

lemma parse_entries_records:
  "videos (snd (parse_entries str_of es p)) =
     videos p @ List.map_filter (node_record str_of) (takeWhile (\<lambda>node. \<not> escapes str_of node) es)"
proof (induction es arbitrary: p)
  case Nil
  show ?case by (simp add: map_filter_simps)
next
  case (Cons video rest)
  show ?case
  proof (cases "subscript_key video ''videoId''")
    case (Inl e)
    then show ?thesis by (simp add: escapes_def map_filter_simps)
  next
    case vid: (Inr vid)
    show ?thesis
    proof (cases "build_video str_of vid video")
      case (Inr v)
      then show ?thesis
        using vid Cons.IH [of "p\<lparr>videos := videos p @ [v]\<rparr>"]
        by (simp add: escapes_def node_record_def map_filter_simps)
    next
      case (Inl e)
      show ?thesis
      proof (cases e)
        case (KeyError k)
        then show ?thesis
          using vid Inl
            Cons.IH [of "p\<lparr>printed := printed p @
              [''KeyError for video with ID '' @ format_value str_of vid @ ''.'', key_repr k]\<rparr>"]
          by (simp add: escapes_def node_record_def map_filter_simps)
      qed (use vid Inl in \<open>simp_all add: escapes_def map_filter_simps\<close>)
    qed
  qed
qed

lemma parse_entries_no_exception:
  "fst (parse_entries str_of es p) = None \<longleftrightarrow> list_all (\<lambda>node. \<not> escapes str_of node) es"
proof (induction es arbitrary: p)
  case Nil
  show ?case by simp
next
  case (Cons video rest)
  show ?case
  proof (cases "subscript_key video ''videoId''")
    case (Inl e)
    then show ?thesis by (simp add: escapes_def)
  next
    case vid: (Inr vid)
    show ?thesis
    proof (cases "build_video str_of vid video")
      case (Inr v)
      then show ?thesis
        using vid Cons.IH [of "p\<lparr>videos := videos p @ [v]\<rparr>"]
        by (simp add: escapes_def)
    next
      case (Inl e)
      show ?thesis
      proof (cases e)
        case (KeyError k)
        then show ?thesis
          using vid Inl
            Cons.IH [of "p\<lparr>printed := printed p @
              [''KeyError for video with ID '' @ format_value str_of vid @ ''.'', key_repr k]\<rparr>"]
          by (simp add: escapes_def)
      qed (use vid Inl in \<open>simp_all add: escapes_def\<close>)
    qed
  qed
qed

lemma parse_video_results_records:
  "videos (snd (parse_video_results str_of p doc)) = videos p @ extracted_records str_of doc"
  using parse_entries_records [of str_of "gen_dict_extract ''compactVideoRenderer'' doc"
      "p\<lparr>results_json := doc\<rparr>"]
  by (simp add: parse_video_results_def extracted_records_def)

lemma takeWhile_list_all: "list_all P xs \<Longrightarrow> takeWhile P xs = xs"
  by (induction xs) simp_all

text \<open>
  C10. Parsing appends. After a parse the parser holds the records it held before,
  followed by the records of the document's video-entry nodes, one per node that
  has its identifier and all its sub-fields, in the extractor's order (up to the
  node whose exception escapes, if there is one). After parsing one document and
  then another it holds what it held before, then the records of the first
  document, then those of the second. Nothing is cleared, and no node is left out
  because its identifier is already held or occurs twice: when no exception
  escapes, which is exactly when no node makes one escape, every node with a
  record contributes it.
\<close>

theorem parse_accumulates:
  "get_video_results (snd (parse_video_results str_of p d)) =
     get_video_results p @ extracted_records str_of d
   \<and> get_video_results
       (snd (parse_video_results str_of (snd (parse_video_results str_of p d1)) d2)) =
     get_video_results p @ extracted_records str_of d1 @ extracted_records str_of d2
   \<and> (fst (parse_video_results str_of p d) = None \<longleftrightarrow>
        list_all (\<lambda>node. \<not> escapes str_of node) (gen_dict_extract ''compactVideoRenderer'' d))
   \<and> (list_all (\<lambda>node. \<not> escapes str_of node) (gen_dict_extract ''compactVideoRenderer'' d) \<longrightarrow>
        extracted_records str_of d =
          List.map_filter (node_record str_of) (gen_dict_extract ''compactVideoRenderer'' d))"
proof -
  have 1: "get_video_results (snd (parse_video_results str_of p d)) =
      get_video_results p @ extracted_records str_of d"
    by (simp add: get_video_results_def parse_video_results_records)
  have 2: "get_video_results
       (snd (parse_video_results str_of (snd (parse_video_results str_of p d1)) d2)) =
      get_video_results p @ extracted_records str_of d1 @ extracted_records str_of d2"
    by (simp add: get_video_results_def parse_video_results_records)
  have 3: "fst (parse_video_results str_of p d) = None \<longleftrightarrow>
      list_all (\<lambda>node. \<not> escapes str_of node) (gen_dict_extract ''compactVideoRenderer'' d)"
    by (simp add: parse_video_results_def parse_entries_no_exception)
  have 4: "list_all (\<lambda>node. \<not> escapes str_of node) (gen_dict_extract ''compactVideoRenderer'' d) \<longrightarrow>
      extracted_records str_of d =
        List.map_filter (node_record str_of) (gen_dict_extract ''compactVideoRenderer'' d)"
    by (simp add: extracted_records_def takeWhile_list_all)
  show ?thesis using 1 2 3 4 by blast
qed

text \<open>
  One document with the same complete node twice (and a node without \<^verbatim>\<open>title\<close>
  between them), parsed twice: the record is held four times.
\<close>

theorem parse_accumulates_witness:
  "list_all (\<lambda>node. \<not> escapes (\<lambda>v. []) node) (gen_dict_extract ''compactVideoRenderer''
      (JDict [(''contents'', JList
         [JDict [(''compactVideoRenderer'', sample_node ''abc123'')],
          JDict [(''compactVideoRenderer'',
             JDict ((''videoId'', JStr ''bad'') # filter (\<lambda>kv. fst kv \<noteq> ''title'') sample_fields))],
          JDict [(''compactVideoRenderer'', sample_node ''abc123'')]])]))
   \<and> extracted_records (\<lambda>v. [])
      (JDict [(''contents'', JList
         [JDict [(''compactVideoRenderer'', sample_node ''abc123'')],
          JDict [(''compactVideoRenderer'',
             JDict ((''videoId'', JStr ''bad'') # filter (\<lambda>kv. fst kv \<noteq> ''title'') sample_fields))],
          JDict [(''compactVideoRenderer'', sample_node ''abc123'')]])]) =
     [sample_record ''abc123'', sample_record ''abc123'']
   \<and> get_video_results (snd (parse_video_results (\<lambda>v. [])
       (snd (parse_video_results (\<lambda>v. []) new_parser
          (JDict [(''contents'', JList
         [JDict [(''compactVideoRenderer'', sample_node ''abc123'')],
          JDict [(''compactVideoRenderer'',
             JDict ((''videoId'', JStr ''bad'') # filter (\<lambda>kv. fst kv \<noteq> ''title'') sample_fields))],
          JDict [(''compactVideoRenderer'', sample_node ''abc123'')]])])))
       (JDict [(''contents'', JList
         [JDict [(''compactVideoRenderer'', sample_node ''abc123'')],
          JDict [(''compactVideoRenderer'',
             JDict ((''videoId'', JStr ''bad'') # filter (\<lambda>kv. fst kv \<noteq> ''title'') sample_fields))],
          JDict [(''compactVideoRenderer'', sample_node ''abc123'')]])]))) =
     [sample_record ''abc123'', sample_record ''abc123'',
      sample_record ''abc123'', sample_record ''abc123'']"
proof -
  let ?d = "JDict [(''contents'', JList
         [JDict [(''compactVideoRenderer'', sample_node ''abc123'')],
          JDict [(''compactVideoRenderer'',
             JDict ((''videoId'', JStr ''bad'') # filter (\<lambda>kv. fst kv \<noteq> ''title'') sample_fields))],
          JDict [(''compactVideoRenderer'', sample_node ''abc123'')]])]"
  have ok: "list_all (\<lambda>node. \<not> escapes (\<lambda>v. []) node) (gen_dict_extract ''compactVideoRenderer'' ?d)"
    by (simp add: escapes_def sample_node_def build_video_def sample_fields_def sample_runs_def
        sample_thumbnails_def bind_err_def)
  have mf: "List.map_filter (node_record (\<lambda>v. [])) (gen_dict_extract ''compactVideoRenderer'' ?d) =
      [sample_record ''abc123'', sample_record ''abc123'']"
    by (simp add: node_record_def map_filter_simps sample_node_def build_video_def
        sample_fields_def sample_runs_def sample_thumbnails_def sample_record_def bind_err_def)
  have ex: "extracted_records (\<lambda>v. []) ?d = [sample_record ''abc123'', sample_record ''abc123'']"
    using parse_accumulates [where str_of = "\<lambda>v. []" and p = new_parser and d = ?d
        and ?d1.0 = ?d and ?d2.0 = ?d] ok mf by simp
  have chain: "get_video_results (snd (parse_video_results (\<lambda>v. [])
       (snd (parse_video_results (\<lambda>v. []) new_parser ?d)) ?d)) =
      get_video_results new_parser @ extracted_records (\<lambda>v. []) ?d @ extracted_records (\<lambda>v. []) ?d"
    using parse_accumulates [where str_of = "\<lambda>v. []" and p = new_parser and d = ?d
        and ?d1.0 = ?d and ?d2.0 = ?d] by blast
  show ?thesis
    using ok ex chain by (simp add: get_video_results_def new_parser_def)
qed

section \<open>Properties of the report renderer\<close>

lemma print_loop_length: "length (print_loop n vs) = length vs"
  by (induction vs arbitrary: n) simp_all

lemma print_loop_nth:
  "i < length vs \<Longrightarrow> print_loop n vs ! i = str_nat (n + i) @ ''. '' @ video_str (vs ! i)"
proof (induction vs arbitrary: n i)
  case Nil
  then show ?case by simp
next
  case (Cons v vs)
  show ?case
  proof (cases i)
    case 0
    then show ?thesis by simp
  next
    case (Suc k)
    then have "k < length vs" using Cons.prems by simp
    then show ?thesis using Cons.IH [of k "n + 1"] Suc by simp
  qed
qed

lemma markdown_loop_concat:
  "markdown_loop acc vs = acc @ concat (map markdown_entry vs)"
  by (induction vs arbitrary: acc) simp_all

lemma join_prefix: "\<exists>rest. join sep (x # xs) = x @ rest"
  by (cases xs) simp_all

lemma str_nat_1_2: "str_nat (Suc 0) = ''1''" "str_nat 2 = ''2''" "str_nat (Suc (Suc 0)) = ''2''"
  by code_simp+

text \<open>
  C9. \<^verbatim>\<open>print_videos\<close> makes one \<^verbatim>\<open>print\<close> call per stored record, in enumeration
  order; the text printed for the record at position \<open>i\<close> is its number \<open>i + 1\<close>,
  a dot and a space, then the two lines of \<^verbatim>\<open>__str__\<close>, each ended by a newline.
  The text written by \<^verbatim>\<open>write_videos_to_markdown_file\<close> is the header and, per
  record in enumeration order, the thumbnail image, the linked title line (ended by
  the two spaces of a Markdown line break) and the channel line with the separator,
  all joined by newlines; it starts with the header.
\<close>

theorem report_rendering:
  "length (print_videos m) = length (get_videos m)
   \<and> (\<forall>i<length (get_videos m). print_videos m ! i =
        (let v = get_videos m ! i in
         str_nat (i + 1) @ ''. ['' @ video_id v @ ''] '' @ title v @ '' ('' @ length' v @ '') - ''
           @ view_count_text v @ nl
           @ ''by: '' @ channel v @ '' - uploaded '' @ uploaded_on v @ '' - '' @ video_url v @ nl))
   \<and> write_videos_to_markdown_file m =
       join nl ((''# Search Results Summary'' @ nl @ nl) # concat (map (\<lambda>v.
         [''![thumbnail preview]('' @ thumbnail_url v @ '')'' @ nl,
          ''[['' @ video_id v @ ''] '' @ title v @ '']('' @ video_url v @ '') ('' @ length' v
            @ '') - '' @ view_count_text v @ ''  '',
          ''![channel thumbnail preview]('' @ channel_thumbnail_url v @ '') '' @ channel v
            @ '' - uploaded '' @ uploaded_on v @ nl @ nl @ ''- - -'' @ nl]) (get_videos m)))
   \<and> (\<exists>rest. write_videos_to_markdown_file m = ''# Search Results Summary'' @ nl @ nl @ rest)"
proof -
  have 1: "length (print_videos m) = length (get_videos m)"
    by (simp add: print_videos_def print_loop_length)
  have 2: "\<forall>i<length (get_videos m). print_videos m ! i =
        (let v = get_videos m ! i in
         str_nat (i + 1) @ ''. ['' @ video_id v @ ''] '' @ title v @ '' ('' @ length' v @ '') - ''
           @ view_count_text v @ nl
           @ ''by: '' @ channel v @ '' - uploaded '' @ uploaded_on v @ '' - '' @ video_url v @ nl)"
    by (simp add: print_videos_def print_loop_nth video_str_def Let_def)
  have eq: "markdown_entry = (\<lambda>v.
         [''![thumbnail preview]('' @ thumbnail_url v @ '')'' @ nl,
          ''[['' @ video_id v @ ''] '' @ title v @ '']('' @ video_url v @ '') ('' @ length' v
            @ '') - '' @ view_count_text v @ ''  '',
          ''![channel thumbnail preview]('' @ channel_thumbnail_url v @ '') '' @ channel v
            @ '' - uploaded '' @ uploaded_on v @ nl @ nl @ ''- - -'' @ nl])"
    by (rule ext) (simp add: markdown_entry_def)
  have 3: "write_videos_to_markdown_file m =
       join nl ((''# Search Results Summary'' @ nl @ nl) # concat (map markdown_entry (get_videos m)))"
    by (simp add: write_videos_to_markdown_file_def markdown_loop_concat)
  obtain r where "join nl ((''# Search Results Summary'' @ nl @ nl) #
        concat (map markdown_entry (get_videos m))) = (''# Search Results Summary'' @ nl @ nl) @ r"
    using join_prefix by blast
  then have "write_videos_to_markdown_file m = ''# Search Results Summary'' @ nl @ nl @ r"
    unfolding 3 by (simp only: append_assoc)
  then have 4: "\<exists>rest. write_videos_to_markdown_file m = ''# Search Results Summary'' @ nl @ nl @ rest"
    by (rule exI)
  show ?thesis using 1 2 3 4 unfolding eq by blast
qed

theorem report_rendering_witness:
  "print_videos [(''abc123'', sample_video ''abc123'' ''A''), (''y'', sample_video ''y'' ''B'')] ! 0 =
      ''1. [abc123] A (3:33) - 10 views'' @ nl
        @ ''by: Chan - uploaded 1 day ago - https://www.youtube.com/watch?v=abc123'' @ nl
   \<and> print_videos [(''abc123'', sample_video ''abc123'' ''A''), (''y'', sample_video ''y'' ''B'')] ! 1 =
      ''2. [y] B (3:33) - 10 views'' @ nl
        @ ''by: Chan - uploaded 1 day ago - https://www.youtube.com/watch?v=y'' @ nl
   \<and> write_videos_to_markdown_file [(''abc123'', sample_video ''abc123'' ''A'')] =
       ''# Search Results Summary'' @ nl @ nl @ nl
       @ ''![thumbnail preview](t.jpg)'' @ nl @ nl
       @ ''[[abc123] A](https://www.youtube.com/watch?v=abc123) (3:33) - 10 views  '' @ nl
       @ ''![channel thumbnail preview](c.jpg) Chan - uploaded 1 day ago'' @ nl @ nl
       @ ''- - -'' @ nl"
proof -
  let ?m = "[(''abc123'', sample_video ''abc123'' ''A''), (''y'', sample_video ''y'' ''B'')]"
  have len: "length (get_videos ?m) = 2" by (simp add: get_videos_def)
  have r: "\<forall>i<length (get_videos ?m). print_videos ?m ! i =
        (let v = get_videos ?m ! i in
         str_nat (i + 1) @ ''. ['' @ video_id v @ ''] '' @ title v @ '' ('' @ length' v @ '') - ''
           @ view_count_text v @ nl
           @ ''by: '' @ channel v @ '' - uploaded '' @ uploaded_on v @ '' - '' @ video_url v @ nl)"
    using report_rendering [of ?m] by blast
  have a: "print_videos ?m ! 0 = ''1. [abc123] A (3:33) - 10 views'' @ nl
        @ ''by: Chan - uploaded 1 day ago - https://www.youtube.com/watch?v=abc123'' @ nl"
    using r [rule_format, of 0] len
    by (simp add: get_videos_def sample_video_def str_nat_1_2 del: str_nat.simps)
  have b: "print_videos ?m ! 1 = ''2. [y] B (3:33) - 10 views'' @ nl
        @ ''by: Chan - uploaded 1 day ago - https://www.youtube.com/watch?v=y'' @ nl"
    using r [rule_format, of 1] len
    by (simp add: get_videos_def sample_video_def str_nat_1_2 del: str_nat.simps)
  have c: "write_videos_to_markdown_file [(''abc123'', sample_video ''abc123'' ''A'')] =
       ''# Search Results Summary'' @ nl @ nl @ nl
       @ ''![thumbnail preview](t.jpg)'' @ nl @ nl
       @ ''[[abc123] A](https://www.youtube.com/watch?v=abc123) (3:33) - 10 views  '' @ nl
       @ ''![channel thumbnail preview](c.jpg) Chan - uploaded 1 day ago'' @ nl @ nl
       @ ''- - -'' @ nl"
    by (simp add: get_videos_def sample_video_def write_videos_to_markdown_file_def
        markdown_entry_def)
  show ?thesis using a b c by blast
qed

section \<open>The extractor finds every occurrence, depth first\<close>

lemma stored_at_Nil [simp]: "stored_at key d [] = None"
  by (cases d) simp_all

lemma stored_in_value_Nil [simp]: "stored_in_value key v [] = None"
  by (cases v) (simp_all add: stored_in_value_def stored_in_list_def)

lemma stored_in_list_Nil [simp]: "stored_in_list key ds [] = None"
  by (simp add: stored_in_list_def)

lemma stored_in_list_empty [simp]: "stored_in_list key [] q = None"
  by (simp add: stored_in_list_def split: list.splits)

lemma stored_at_empty_dict [simp]: "stored_at key (JDict []) q = None"
  by (cases "(key, JDict [], q)" rule: stored_at.cases) simp_all

lemma stored_at_head:
  "stored_at key (JDict ((k, v) # kvs)) (0 # q) =
     (if q = [] then (if k = key then Some v else None) else stored_in_value key v q)"
  by (cases q) (simp_all add: stored_in_value_def stored_in_list_def split: json.splits)

lemma stored_at_tail:
  "stored_at key (JDict ((k, v) # kvs)) (Suc i # q) = stored_at key (JDict kvs) (i # q)"
  by (cases q) simp_all

lemma stored_in_list_head: "stored_in_list key (d # ds) (0 # r) = stored_at key d r"
  by (simp add: stored_in_list_def)

lemma stored_in_list_tail:
  "stored_in_list key (d # ds) (Suc j # r) = stored_in_list key ds (j # r)"
  by (simp add: stored_in_list_def)

lemma bump_simps [simp]: "bump [] = []" "bump (i # r) = Suc i # r"
  by (simp_all add: bump_def)

lemma bump_image_Suc: "Suc i # r \<in> bump ` S \<longleftrightarrow> i # r \<in> S"
proof
  assume "Suc i # r \<in> bump ` S"
  then obtain x where x: "x \<in> S" "bump x = Suc i # r" by auto
  then have "x = i # r" by (cases x) simp_all
  then show "i # r \<in> S" using x by simp
next
  assume "i # r \<in> S"
  then have "bump (i # r) \<in> bump ` S" by (rule imageI)
  then show "Suc i # r \<in> bump ` S" by simp
qed

lemma bump_image_0: "0 # r \<notin> bump ` S"
proof
  assume "0 # r \<in> bump ` S"
  then obtain x where "bump x = 0 # r" by auto
  then show False by (cases x) simp_all
qed

lemma bump_image_Nil: "[] \<in> bump ` S \<longleftrightarrow> [] \<in> S"
proof
  assume "[] \<in> bump ` S"
  then obtain x where x: "x \<in> S" "bump x = []" by auto
  then have "x = []" by (cases x) simp_all
  then show "[] \<in> S" using x by simp
next
  assume "[] \<in> S"
  then have "bump [] \<in> bump ` S" by (rule imageI)
  then show "[] \<in> bump ` S" by simp
qed

lemma Cons_image: "j # r \<in> (#) i ` S \<longleftrightarrow> j = i \<and> r \<in> S"
  by auto

lemma Nil_Cons_image: "[] \<notin> (#) i ` S"
  by auto

lemma positions_set_all:
  "\<forall>q. q \<in> set (positions key d) \<longleftrightarrow> stored_at key d q \<noteq> None"
  "\<forall>q. q \<in> set (positions_items key kvs) \<longleftrightarrow> stored_at key (JDict kvs) q \<noteq> None"
  "\<forall>q. q \<in> set (positions_value key v) \<longleftrightarrow> stored_in_value key v q \<noteq> None"
  "\<forall>q. q \<in> set (positions_elems key ds) \<longleftrightarrow> stored_in_list key ds q \<noteq> None"
proof (induction key d and key kvs and key v and key ds
    rule: positions_positions_items_positions_value_positions_elems.induct)
  case (9 key k v kvs)
  show ?case
  proof
    fix q
    show "q \<in> set (positions_items key ((k, v) # kvs)) \<longleftrightarrow>
        stored_at key (JDict ((k, v) # kvs)) q \<noteq> None"
    proof (cases q)
      case Nil
      then show ?thesis using 9 by (simp add: bump_image_Nil Nil_Cons_image)
    next
      case (Cons i r)
      show ?thesis
      proof (cases i)
        case 0
        then show ?thesis
          using 9 Cons by (auto simp: stored_at_head bump_image_0 Cons_image)
      next
        case (Suc i')
        have "q \<in> set (positions_items key ((k, v) # kvs)) \<longleftrightarrow>
            (i' # r) \<in> set (positions_items key kvs)"
          using Cons Suc by (simp add: bump_image_Suc Cons_image)
        then show ?thesis
          using 9 Cons Suc by (simp add: stored_at_tail)
      qed
    qed
  qed
next
  case (18 key d ds)
  show ?case
  proof
    fix q
    show "q \<in> set (positions_elems key (d # ds)) \<longleftrightarrow> stored_in_list key (d # ds) q \<noteq> None"
    proof (cases q)
      case Nil
      then show ?thesis using 18 by (simp add: bump_image_Nil Nil_Cons_image)
    next
      case (Cons j r)
      show ?thesis
      proof (cases j)
        case 0
        then show ?thesis
          using 18 Cons by (auto simp: stored_in_list_head bump_image_0 Cons_image)
      next
        case (Suc j')
        have "q \<in> set (positions_elems key (d # ds)) \<longleftrightarrow> (j' # r) \<in> set (positions_elems key ds)"
          using Cons Suc by (simp add: bump_image_Suc Cons_image)
        then show ?thesis
          using 18 Cons Suc by (simp add: stored_in_list_tail)
      qed
    qed
  qed
qed (simp_all add: stored_in_value_def)

lemma positions_nonempty:
  "[] \<notin> set (positions key d)" "[] \<notin> set (positions_items key kvs)"
  "[] \<notin> set (positions_value key v)" "[] \<notin> set (positions_elems key ds)"
  using positions_set_all(1) [of key d] positions_set_all(2) [of key kvs]
    positions_set_all(3) [of key v] positions_set_all(4) [of key ds]
  by simp_all

lemma map_stored_head:
  "map (stored_at key (JDict ((k, v) # kvs)) \<circ> (#) 0) (positions_value key v) =
     map (stored_in_value key v) (positions_value key v)"
  by (rule map_cong) (use positions_nonempty(3) in \<open>auto simp: stored_at_head\<close>)

lemma map_stored_tail:
  "map (stored_at key (JDict ((k, v) # kvs)) \<circ> bump) (positions_items key kvs) =
     map (stored_at key (JDict kvs)) (positions_items key kvs)"
proof (rule map_cong)
  fix q assume "q \<in> set (positions_items key kvs)"
  then have "q \<noteq> []" using positions_nonempty(2) by metis
  then obtain i r where "q = i # r" by (cases q) auto
  then show "(stored_at key (JDict ((k, v) # kvs)) \<circ> bump) q = stored_at key (JDict kvs) q"
    by (simp add: stored_at_tail)
qed simp

lemma map_list_head:
  "map (stored_in_list key (d # ds) \<circ> (#) 0) (positions key d) =
     map (stored_at key d) (positions key d)"
  by (rule map_cong) (simp_all add: stored_in_list_head)

lemma map_list_tail:
  "map (stored_in_list key (d # ds) \<circ> bump) (positions_elems key ds) =
     map (stored_in_list key ds) (positions_elems key ds)"
proof (rule map_cong)
  fix q assume "q \<in> set (positions_elems key ds)"
  then have "q \<noteq> []" using positions_nonempty(4) by metis
  then obtain j r where "q = j # r" by (cases q) auto
  then show "(stored_in_list key (d # ds) \<circ> bump) q = stored_in_list key ds q"
    by (simp add: stored_in_list_tail)
qed simp

lemma positions_values_all:
  "map (stored_at key d) (positions key d) = map Some (gen_dict_extract key d)"
  "map (stored_at key (JDict kvs)) (positions_items key kvs) = map Some (extract_items key kvs)"
  "map (stored_in_value key v) (positions_value key v) = map Some (extract_value key v)"
  "map (stored_in_list key ds) (positions_elems key ds) = map Some (extract_elems key ds)"
proof (induction key d and key kvs and key v and key ds
    rule: positions_positions_items_positions_value_positions_elems.induct)
  case (9 key k v kvs)
  show ?case
    using 9 by (simp add: map_stored_head map_stored_tail stored_at_head del: stored_at.simps)
next
  case (18 key d ds)
  show ?case
    using 18 by (simp add: map_list_head map_list_tail)
qed (simp_all add: stored_in_value_def)

lemma sorted_map_Cons: "sorted_wrt (<) ps \<Longrightarrow> sorted_wrt (<) (map ((#) (i::nat)) ps)"
  by (simp add: sorted_wrt_map)

lemma sorted_map_bump:
  assumes "sorted_wrt (<) ps" "[] \<notin> set ps" shows "sorted_wrt (<) (map bump ps)"
proof -
  have mono: "\<And>x y. x \<in> set ps \<Longrightarrow> y \<in> set ps \<Longrightarrow> x < y \<Longrightarrow> bump x < bump y"
  proof -
    fix x y assume "x \<in> set ps" "y \<in> set ps" "x < y"
    then obtain i r j t where "x = i # r" "y = j # t"
      using assms(2) by (metis neq_Nil_conv)
    then show "bump x < bump y" using \<open>x < y\<close> by simp
  qed
  have "sorted_wrt (\<lambda>x y. bump x < bump y) ps"
    by (rule sorted_wrt_mono_rel [OF _ assms(1)]) (use mono in blast)
  then show ?thesis by (simp add: sorted_wrt_map)
qed

lemma head_less_bump: "[] \<notin> set ps \<Longrightarrow> q \<in> set ps \<Longrightarrow> 0 # r < bump q"
  by (cases q) auto

lemma sorted_head_tail:
  assumes "sorted_wrt (<) ps" "sorted_wrt (<) qs" "[] \<notin> set qs"
  shows "sorted_wrt (<) (map ((#) 0) ps @ map bump qs)"
proof -
  have "\<forall>x\<in>set (map ((#) 0) ps). \<forall>y\<in>set (map bump qs). x < y"
    using head_less_bump [OF assms(3)] by auto
  then show ?thesis
    using sorted_map_Cons [OF assms(1)] sorted_map_bump [OF assms(2,3)]
    by (simp only: sorted_wrt_append)
qed

lemma Nil_less_nonempty: "x \<noteq> [] \<Longrightarrow> [] < (x :: nat list)"
  by (cases x) simp_all

lemma positions_sorted_all:
  "sorted_wrt (<) (positions key d)"
  "sorted_wrt (<) (positions_items key kvs)"
  "sorted_wrt (<) (positions_value key v)"
  "sorted_wrt (<) (positions_elems key ds)"
proof (induction key d and key kvs and key v and key ds
    rule: positions_positions_items_positions_value_positions_elems.induct)
  case (9 key k v kvs)
  have bc: "sorted_wrt (<) (map ((#) 0) (positions_value key v) @ map bump (positions_items key kvs))"
    using 9 positions_nonempty(2) by (intro sorted_head_tail)
  have d: "\<forall>y\<in>set (map ((#) 0) (positions_value key v)). [0] < y"
    using positions_nonempty(3) [of key v] by (auto intro!: Nil_less_nonempty)
  have e: "\<forall>y\<in>set (map bump (positions_items key kvs)). [0] < y"
    using head_less_bump [OF positions_nonempty(2)] by auto
  have "sorted_wrt (<) ([[0]] @ map ((#) 0) (positions_value key v) @ map bump (positions_items key kvs))"
    using bc d e by (subst sorted_wrt_append) (auto simp del: set_map)
  then show ?case using bc by simp
next
  case (18 key d ds)
  show ?case
    using 18 positions_nonempty(4) by (simp only: positions_elems.simps) (intro sorted_head_tail)
qed simp_all

text \<open>
  C3. The extractor yields exactly the values stored under the key at the positions
  it can reach (through dict values and through dict elements of lists that are dict
  values, at any depth), each position once, and in increasing lexicographic order of
  the positions: an entry comes before everything inside its own value, which is
  searched even though the value was yielded; the entries of a dict come in stored
  order and the elements of a list in index order.
\<close>

theorem extractor_finds_all_depth_first:
  "map Some (gen_dict_extract key doc) = map (stored_at key doc) (positions key doc)
   \<and> set (positions key doc) = {q. stored_at key doc q \<noteq> None}
   \<and> sorted_wrt (<) (positions key doc)"
  using positions_values_all(1) [of key doc] positions_set_all(1) [of key doc]
    positions_sorted_all(1) [of key doc]
  by auto

text \<open>
  The key at depth 0 (with a dict as its value, and the key again inside that dict,
  depth 1), at depth 5, and in a dict that is an element of a list.
\<close>

theorem extractor_finds_all_depth_first_witness:
  "gen_dict_extract ''k''
      (JDict [(''k'', JDict [(''k'', JNum 1)]),
              (''a'', JDict [(''b'', JDict [(''c'', JDict [(''d'', JDict [(''e'',
                  JDict [(''k'', JNum 5)])])])])]),
              (''l'', JList [JNum 7, JDict [(''k'', JStr ''x'')]])]) =
     [JDict [(''k'', JNum 1)], JNum 1, JNum 5, JStr ''x'']
   \<and> positions ''k''
      (JDict [(''k'', JDict [(''k'', JNum 1)]),
              (''a'', JDict [(''b'', JDict [(''c'', JDict [(''d'', JDict [(''e'',
                  JDict [(''k'', JNum 5)])])])])]),
              (''l'', JList [JNum 7, JDict [(''k'', JStr ''x'')]])]) =
     [[0], [0, 0], [1, 0, 0, 0, 0, 0], [2, 1, 0]]"
  using extractor_finds_all_depth_first [of "''k''"
      "JDict [(''k'', JDict [(''k'', JNum 1)]),
              (''a'', JDict [(''b'', JDict [(''c'', JDict [(''d'', JDict [(''e'',
                  JDict [(''k'', JNum 5)])])])])]),
              (''l'', JList [JNum 7, JDict [(''k'', JStr ''x'')]])]"]
  by (simp add: numeral_nat)

end
